theory Spec2Isabelle
  imports Main "HOL-Library.Word"
begin

section \<open>Machine types\<close>

text \<open>
  The record manager of libbitcoin-database
  (\<^verbatim>\<open>include/bitcoin/database/impl/record_manager.ipp\<close>) is a class template over an
  unsigned integer type \<^verbatim>\<open>Link\<close>.  A link is a \<open>'l word\<close>; \<^verbatim>\<open>size_t\<close> and
  \<^verbatim>\<open>file_offset\<close> are 64-bit unsigned integers, so \<open>+\<close>, \<open>-\<close> and \<open>*\<close> on them
  wrap modulo \<open>2 ^ 64\<close> as they do in C++.
\<close>

type_synonym byte = "8 word"
type_synonym size_t = "64 word"
type_synonym file_offset = "64 word"

text \<open>
  Ways in which a call does not return normally: a failed \<^verbatim>\<open>BITCOIN_ASSERT\<close>, the
  exception that \<^verbatim>\<open>storage::resize\<close> throws, an access through the raw buffer pointer
  that leaves the mapped file, and an integer division by zero.
\<close>

datatype fault = assertion_failed | storage_exception | memory_fault | division_by_zero

section \<open>The collaborators of the record manager\<close>

text \<open>
  Modelled from the spec: the growable storage (\<^verbatim>\<open>memory/storage.hpp\<close> is not among
  the sources).  It owns the bytes of the file and accepts sizes up to a capacity:
  \<^verbatim>\<open>size()\<close> is the current file size, \<^verbatim>\<open>resize(n)\<close> sets the size to exactly \<open>n\<close>
  and fails fatally (throws) when there is insufficient space, \<^verbatim>\<open>reserve(n)\<close> ensures
  that the size is at least \<open>n\<close>, growing if necessary, and returns false on failure.
  New bytes are zero.
\<close>

record storage =
  bytes :: "byte list"
  capacity :: size_t

definition storage_size :: "storage \<Rightarrow> nat" where
  "storage_size f = length (bytes f)"

definition resize :: "size_t \<Rightarrow> storage \<Rightarrow> storage option" where
  "resize n f =
     (if n \<le> capacity f
      then Some (f\<lparr>bytes := take (unat n) (bytes f) @ replicate (unat n - length (bytes f)) 0\<rparr>)
      else None)"

definition reserve :: "size_t \<Rightarrow> storage \<Rightarrow> bool \<times> storage" where
  "reserve n f =
     (if unat n \<le> length (bytes f) then (True, f)
      else if n \<le> capacity f
      then (True, f\<lparr>bytes := bytes f @ replicate (unat n - length (bytes f)) 0\<rparr>)
      else (False, f))"

text \<open>
  Modelled from the spec: the memory accessor (\<^verbatim>\<open>memory/memory.hpp\<close> is not among the
  sources).  \<^verbatim>\<open>access()\<close> yields an accessor at file offset 0, \<^verbatim>\<open>increment(n)\<close>
  advances it by \<open>n\<close> bytes, \<^verbatim>\<open>buffer()\<close> is its current position.
\<close>

record memory =
  buffer :: file_offset

definition access :: "storage \<Rightarrow> memory" where
  "access f = \<lparr>buffer = 0\<rparr>"

definition increment :: "file_offset \<Rightarrow> memory \<Rightarrow> memory" where
  "increment n p = p\<lparr>buffer := buffer p + n\<rparr>"

text \<open>
  Reading and writing through the raw buffer pointer is unchecked in the source; an
  access that leaves the file is undefined behaviour and shows as \<open>memory_fault\<close>.
\<close>

definition read_bytes :: "nat \<Rightarrow> nat \<Rightarrow> storage \<Rightarrow> fault + byte list" where
  "read_bytes pos k f =
     (if pos + k \<le> length (bytes f) then Inr (take k (drop pos (bytes f)))
      else Inl memory_fault)"

definition write_bytes :: "nat \<Rightarrow> byte list \<Rightarrow> storage \<Rightarrow> fault + storage" where
  "write_bytes pos bs f =
     (if pos + length bs \<le> length (bytes f)
      then Inr (f\<lparr>bytes := take pos (bytes f) @ bs @ drop (pos + length bs) (bytes f)\<rparr>)
      else Inl memory_fault)"

text \<open>
  Modelled from the spec: the little-endian serialisation of libbitcoin
  (\<^verbatim>\<open>write_little_endian\<close>, \<^verbatim>\<open>from_little_endian_unsafe\<close> of \<^verbatim>\<open>bitcoin/bitcoin.hpp\<close>,
  not among the sources): an unsigned integer in a given number of bytes, least
  significant byte first.
\<close>

fun to_little_endian :: "nat \<Rightarrow> 'l::len word \<Rightarrow> byte list" where
  "to_little_endian 0 v = []"
| "to_little_endian (Suc k) v = ucast v # to_little_endian k (drop_bit 8 v)"

fun from_little_endian :: "byte list \<Rightarrow> 'l::len word" where
  "from_little_endian [] = 0"
| "from_little_endian (b # bs) = ucast b + push_bit 8 (from_little_endian bs)"

section \<open>The record manager\<close>

text \<open>
  The members \<^verbatim>\<open>file_\<close>, \<^verbatim>\<open>header_size_\<close>, \<^verbatim>\<open>record_size_\<close> and \<^verbatim>\<open>record_count_\<close>.
  The storage is held by reference in the source; here the manager carries its state.
\<close>

record (overloaded) 'l record_manager =
  rm_file :: storage
  header_size :: size_t
  record_size :: size_t
  record_count :: "'l word"

text \<open>The constructor: the cached count starts at 0, whatever the file holds.\<close>

definition construct :: "storage \<Rightarrow> size_t \<Rightarrow> size_t \<Rightarrow> 'l::len record_manager" where
  "construct f h r = \<lparr>rm_file = f, header_size = h, record_size = r, record_count = 0\<rparr>"

text \<open>\<^verbatim>\<open>sizeof(Link)\<close>, as a number and as the \<^verbatim>\<open>size_t\<close> the source computes with.\<close>

definition link_width :: "'l::len record_manager \<Rightarrow> nat" where
  "link_width m = LENGTH('l) div 8"

definition sizeof_Link :: "'l::len record_manager \<Rightarrow> size_t" where
  "sizeof_Link m = of_nat (link_width m)"

text \<open>
  Modelled from the spec: \<^verbatim>\<open>BITCOIN_ASSERT\<close> (a macro of \<^verbatim>\<open>bitcoin/bitcoin.hpp\<close>, not
  among the sources) is a fatal assertion: when its condition is false the call faults.
\<close>

definition BITCOIN_ASSERT :: "bool \<Rightarrow> fault + 'a \<Rightarrow> fault + 'a" where
  "BITCOIN_ASSERT c k = (if c then k else Inl assertion_failed)"

text \<open>
  \<^verbatim>\<open>return sizeof(Link) + link * record_size_;\<close>  The link is converted to
  \<^verbatim>\<open>size_t\<close> and the arithmetic is that of \<^verbatim>\<open>size_t\<close>.
\<close>

definition link_to_position :: "'l::len record_manager \<Rightarrow> 'l word \<Rightarrow> file_offset" where
  "link_to_position m link = sizeof_Link m + ucast link * record_size m"

text \<open>
  \<^verbatim>\<open>return (position - sizeof(Link)) / record_size_;\<close>  The quotient is narrowed to
  \<^verbatim>\<open>Link\<close> on return; dividing by a zero record size traps.
\<close>

definition position_to_link :: "'l::len record_manager \<Rightarrow> file_offset \<Rightarrow> fault + 'l word" where
  "position_to_link m position =
     (if record_size m = 0 then Inl division_by_zero
      else Inr (ucast ((position - sizeof_Link m) div record_size m)))"

definition write_count :: "'l::len record_manager \<Rightarrow> fault + 'l record_manager" where
  "write_count m =
     BITCOIN_ASSERT (unat (header_size m + sizeof_Link m) \<le> storage_size (rm_file m))
       (case write_bytes (unat (buffer (access (rm_file m)) + header_size m))
               (to_little_endian (link_width m) (record_count m)) (rm_file m) of
          Inl e \<Rightarrow> Inl e
        | Inr f \<Rightarrow> Inr (m\<lparr>rm_file := f\<rparr>))"

definition read_count :: "'l::len record_manager \<Rightarrow> fault + 'l record_manager" where
  "read_count m =
     BITCOIN_ASSERT (unat (header_size m + sizeof_Link m) \<le> storage_size (rm_file m))
       (case read_bytes (unat (buffer (access (rm_file m)) + header_size m))
               (link_width m) (rm_file m) of
          Inl e \<Rightarrow> Inl e
        | Inr bs \<Rightarrow> Inr (m\<lparr>record_count := from_little_endian bs\<rparr>))"

definition create :: "'l::len record_manager \<Rightarrow> fault + bool \<times> 'l record_manager" where
  "create m =
     (if record_count m \<noteq> 0 then Inr (False, m)
      else case resize (header_size m + link_to_position m (record_count m)) (rm_file m) of
             None \<Rightarrow> Inl storage_exception
           | Some f \<Rightarrow>
               (case write_count (m\<lparr>rm_file := f\<rparr>) of
                  Inl e \<Rightarrow> Inl e
                | Inr m' \<Rightarrow> Inr (True, m')))"

definition start :: "'l::len record_manager \<Rightarrow> fault + bool \<times> 'l record_manager" where
  "start m =
     (case read_count m of
        Inl e \<Rightarrow> Inl e
      | Inr m' \<Rightarrow>
          (let minimum = header_size m' + link_to_position m' (record_count m')
           in Inr (unat minimum \<le> storage_size (rm_file m'), m')))"

definition commit :: "'l::len record_manager \<Rightarrow> fault + 'l record_manager" where
  "commit m = write_count m"

definition count :: "'l::len record_manager \<Rightarrow> 'l word" where
  "count m = record_count m"

definition set_count :: "'l::len word \<Rightarrow> 'l record_manager \<Rightarrow> fault + 'l record_manager" where
  "set_count v m = BITCOIN_ASSERT (v \<le> record_count m) (Inr (m\<lparr>record_count := v\<rparr>))"

text \<open>
  \<^verbatim>\<open>record_count_ + count\<close> is computed in \<^verbatim>\<open>size_t\<close> and narrowed to \<^verbatim>\<open>Link\<close> where
  it is passed to \<^verbatim>\<open>link_to_position\<close>, and again by \<^verbatim>\<open>record_count_ += count\<close>.
\<close>

definition required_size :: "'l::len record_manager \<Rightarrow> size_t \<Rightarrow> size_t" where
  "required_size m n =
     header_size m + link_to_position m (ucast (ucast (record_count m) + n :: size_t))"

definition allocate :: "size_t \<Rightarrow> 'l::len record_manager \<Rightarrow> 'l word \<times> 'l record_manager" where
  "allocate n m =
     (let next_record_index = record_count m
      in case reserve (required_size m n) (rm_file m) of
           (False, f) \<Rightarrow> (0, m\<lparr>rm_file := f\<rparr>)
         | (True, f) \<Rightarrow>
             (next_record_index,
              m\<lparr>rm_file := f,
                record_count := ucast (ucast (record_count m) + n :: size_t)\<rparr>))"

definition get :: "'l::len record_manager \<Rightarrow> 'l word \<Rightarrow> memory" where
  "get m link = increment (header_size m + link_to_position m link) (access (rm_file m))"

section \<open>The offsets the specification speaks of\<close>

text \<open>
  The byte offset of record \<open>L\<close> as the specification writes it,
  \<open>header_size + link_width + L * record_size\<close>, over the natural numbers; it is also
  the file size that \<open>L\<close> records need.  The source computes the same expression in
  \<^verbatim>\<open>size_t\<close>.
\<close>

definition spec_offset :: "'l::len record_manager \<Rightarrow> 'l word \<Rightarrow> nat" where
  "spec_offset m L = unat (header_size m) + link_width m + unat L * unat (record_size m)"

section \<open>Sequences of allocations\<close>

text \<open>
  A caller that issues \<^verbatim>\<open>allocate(n)\<close> for each \<open>n\<close> of a list in turn: the link each
  call returns paired with \<^verbatim>\<open>count()\<close> after it, and whether every \<^verbatim>\<open>reserve\<close>
  along the way succeeded.
\<close>

fun allocations :: "size_t list \<Rightarrow> 'l::len record_manager \<Rightarrow> ('l word \<times> 'l word) list" where
  "allocations [] m = []"
| "allocations (n # ns) m =
     (fst (allocate n m), count (snd (allocate n m))) # allocations ns (snd (allocate n m))"

fun all_reserved :: "size_t list \<Rightarrow> 'l::len record_manager \<Rightarrow> bool" where
  "all_reserved [] m = True"
| "all_reserved (n # ns) m =
     (fst (reserve (required_size m n) (rm_file m)) \<and> all_reserved ns (snd (allocate n m)))"

section \<open>Example stores\<close>

text \<open>
  Stores of a manager with 32-bit links, no header and records of 10 bytes: over a file
  that holds only the count field and may grow, over the same file when the storage
  accepts no growth, over no file at all, and after three records were allocated.
\<close>

definition no_file :: storage where
  "no_file = \<lparr>bytes = [], capacity = 1000\<rparr>"

definition count_file :: storage where
  "count_file = \<lparr>bytes = [0, 0, 0, 0], capacity = 1000\<rparr>"

definition empty_accepting :: "32 record_manager" where
  "empty_accepting = construct count_file 0 10"

definition empty_rejecting :: "32 record_manager" where
  "empty_rejecting = construct \<lparr>bytes = [0, 0, 0, 0], capacity = 4\<rparr> 0 10"

definition three_records :: "32 record_manager" where
  "three_records =
     (construct \<lparr>bytes = [0, 0, 0, 0] @ replicate 30 0, capacity = 1000\<rparr> 0 10)
       \<lparr>record_count := 3\<rparr>"

text \<open>A file that holds the count 3 and three records of 10 bytes.\<close>

definition populated_file :: storage where
  "populated_file = \<lparr>bytes = [3, 0, 0, 0] @ replicate 30 7, capacity = 1000\<rparr>"

text \<open>
  Degenerate geometries the constructor accepts: records of size 0, and records of
  \<open>2 ^ 63\<close> bytes.  Both states are reached by one \<^verbatim>\<open>allocate\<close> on a new store.
\<close>

definition zero_sized :: "32 record_manager" where
  "zero_sized = (construct count_file 0 0)\<lparr>record_count := 2\<rparr>"

definition huge_records :: "32 record_manager" where
  "huge_records = (construct count_file 0 0x8000000000000000)\<lparr>record_count := 4\<rparr>"

text \<open>
  Stores at the edge of the link type: a 32-bit manager whose count is the largest link
  (as \<^verbatim>\<open>start\<close> loads it from a count field of four \<open>0xFF\<close> bytes), a 64-bit manager
  with records of 10 bytes, and a 64-bit manager with records of 16 bytes over an
  8-byte file whose count field holds \<open>2 ^ 60\<close>.
\<close>

definition full_file :: storage where
  "full_file = \<lparr>bytes = [255, 255, 255, 255], capacity = 1000\<rparr>"

definition full32 :: "32 record_manager" where
  "full32 = (construct full_file 0 10)\<lparr>record_count := 0xFFFFFFFF\<rparr>"

definition max_link_store :: "64 record_manager" where
  "max_link_store = construct no_file 0 10"

definition corrupt64 :: "64 record_manager" where
  "corrupt64 = construct \<lparr>bytes = [0, 0, 0, 0, 0, 0, 0, 0x10], capacity = 1000\<rparr> 0 16"

section \<open>Basic facts\<close>

lemmas eval_defs = allocate_def required_size_def link_to_position_def position_to_link_def
  sizeof_Link_def link_width_def reserve_def construct_def get_def increment_def access_def
  count_def storage_size_def

lemma construct_simps [simp]:
  "rm_file (construct f h r) = f"
  "header_size (construct f h r) = h"
  "record_size (construct f h r) = r"
  "record_count (construct f h r) = 0"
  by (simp_all add: construct_def)

lemma link_width_update [simp]:
  "link_width (m\<lparr>rm_file := f\<rparr>) = link_width m"
  "link_width (m\<lparr>record_count := c\<rparr>) = link_width m"
  by (simp_all add: link_width_def)

lemma sizeof_Link_update [simp]:
  "sizeof_Link (m\<lparr>rm_file := f\<rparr>) = sizeof_Link m"
  "sizeof_Link (m\<lparr>record_count := c\<rparr>) = sizeof_Link m"
  by (simp_all add: sizeof_Link_def)

lemma link_width_32: "link_width (m :: 32 record_manager) = 4"
  by (simp add: link_width_def)

lemma link_width_64: "link_width (m :: 64 record_manager) = 8"
  by (simp add: link_width_def)

lemma replicate_4: "replicate 4 x = [x, x, x, x]"
  by (simp add: numeral_eq_Suc)

subsection \<open>Little-endian bytes\<close>

lemma length_to_little_endian: "length (to_little_endian k v) = k"
  by (induction k arbitrary: v) auto

lemma to_little_endian_zero: "to_little_endian k 0 = replicate k 0"
  by (induction k) auto

lemma le_step:
  "(ucast (ucast (v :: 'a :: len word) :: byte) :: 'a word) +
     push_bit 8 (take_bit (8 * k) (drop_bit 8 v)) = take_bit (8 * Suc k) v"
proof -
  have "(ucast (ucast v :: byte) :: 'a word) + push_bit 8 (take_bit (8 * k) (drop_bit 8 v))
      = or (ucast (ucast v :: byte) :: 'a word) (push_bit 8 (take_bit (8 * k) (drop_bit 8 v)))"
    by (rule disjunctive_add) (auto simp: bit_simps)
  also have "\<dots> = take_bit (8 * Suc k) v"
    by (rule bit_eqI) (auto simp: bit_simps)
  finally show ?thesis .
qed

lemma from_to_little_endian:
  "from_little_endian (to_little_endian k v) = take_bit (8 * k) v"
proof (induction k arbitrary: v)
  case 0
  show ?case by simp
next
  case (Suc k)
  then show ?case using le_step [of v k] by simp
qed

text \<open>A link type of whole bytes is read back as it was written.\<close>

lemma whole_bytes_round_trip:
  fixes v :: "'l::len word"
  assumes "LENGTH('l) mod 8 = 0"
  shows "from_little_endian (to_little_endian (LENGTH('l) div 8) v) = v"
proof -
  have "LENGTH('l) \<le> 8 * (LENGTH('l) div 8)"
    using assms by presburger
  then show ?thesis
    by (simp add: from_to_little_endian take_bit_word_eq_self)
qed

lemma from_little_endian_3: "(from_little_endian [3, 0, 0, 0] :: 32 word) = 3"
  by simp

lemma from_little_endian_full:
  "(from_little_endian [255, 255, 255, 255] :: 32 word) = 0xFFFFFFFF"
  by simp

lemma from_little_endian_corrupt:
  "(from_little_endian [0, 0, 0, 0, 0, 0, 0, 0x10] :: 64 word) = 0x1000000000000000"
  by simp

subsection \<open>Sizes that do not wrap\<close>

lemma unat_header_plus_width:
  "unat (h :: size_t) + k < 2 ^ 64 \<Longrightarrow> unat (h + of_nat k) = unat h + k"
  by (simp add: unat_word_ariths unat_of_nat)

lemma unat_header_plus_width_le: "unat ((h :: size_t) + of_nat k) \<le> unat h + k"
proof -
  have "unat (h + of_nat k) = (unat h + unat (of_nat k :: size_t)) mod 2 ^ 64"
    by (simp add: unat_word_ariths)
  also have "\<dots> \<le> unat h + unat (of_nat k :: size_t)"
    by (rule mod_less_eq_dividend)
  also have "\<dots> \<le> unat h + k"
    by (simp add: unat_of_nat)
  finally show ?thesis .
qed

lemma unat_ucast_link:
  assumes "unat (L :: 'l::len word) < 2 ^ 64"
  shows "unat (ucast L :: size_t) = unat L"
  using assms by (simp add: unsigned_ucast_eq take_bit_nat_eq_self)

lemma link_small:
  assumes "r \<noteq> (0 :: size_t)" and "k + unat (L :: 'l::len word) * unat r < 2 ^ 64"
  shows "unat L < 2 ^ 64"
proof -
  have "0 < unat r" using assms(1) by (simp add: unat_gt_0)
  then have "unat L \<le> unat L * unat r" by (cases "unat r") auto
  with assms(2) show ?thesis by linarith
qed

lemma unat_link_times:
  assumes "unat (L :: 'l::len word) < 2 ^ 64" and "unat L * unat (r :: size_t) < 2 ^ 64"
  shows "unat (ucast L * r :: size_t) = unat L * unat r"
  using assms by (simp add: unat_word_ariths unat_ucast_link)

lemma unat_link_to_position:
  assumes "unat (L :: 'l::len word) < 2 ^ 64"
    and "link_width m + unat L * unat (record_size m) < 2 ^ 64"
  shows "unat (link_to_position m L) = link_width m + unat L * unat (record_size m)"
proof -
  have "unat L * unat (record_size m) < 2 ^ 64" using assms(2) by simp
  then have "unat (ucast L * record_size m :: size_t) = unat L * unat (record_size m)"
    using assms(1) by (rule unat_link_times [rotated])
  moreover have "unat (of_nat (link_width m) :: size_t) = link_width m"
    using assms(2) by (simp add: unat_of_nat)
  ultimately show ?thesis
    using assms(2) by (simp add: link_to_position_def sizeof_Link_def unat_word_ariths)
qed

lemma narrowed_sum_no_wrap:
  fixes c :: "'l::len word" and n :: size_t
  assumes "LENGTH('l) \<le> 64" and "unat c + unat n < 2 ^ LENGTH('l)"
  shows "unat (ucast (ucast c + n :: size_t) :: 'l word) = unat c + unat n"
proof -
  have le: "(2 :: nat) ^ LENGTH('l) \<le> 2 ^ 64"
    using assms(1) by (rule power_increasing) simp
  have "unat c < 2 ^ LENGTH('l)" by (rule unsigned_less)
  with le have "unat c < 2 ^ 64" by linarith
  then have c: "unat (ucast c :: size_t) = unat c"
    by (simp add: unsigned_ucast_eq take_bit_nat_eq_self)
  have "unat (ucast c + n :: size_t) = unat c + unat n"
    using assms(2) le by (simp add: unat_word_ariths c)
  then show ?thesis
    using assms(2) by (simp add: unsigned_ucast_eq take_bit_nat_eq_self)
qed

subsection \<open>The count field\<close>

lemma write_count_in_range:
  assumes "unat (header_size m) + link_width m \<le> storage_size (rm_file m)"
  shows "write_count m =
           Inr (m\<lparr>rm_file := (rm_file m)\<lparr>bytes :=
                  take (unat (header_size m)) (bytes (rm_file m)) @
                  to_little_endian (link_width m) (record_count m) @
                  drop (unat (header_size m) + link_width m) (bytes (rm_file m))\<rparr>\<rparr>)"
proof -
  have "unat (header_size m + sizeof_Link m) \<le> storage_size (rm_file m)"
    using assms unat_header_plus_width_le [of "header_size m" "link_width m"]
    by (simp add: sizeof_Link_def)
  then show ?thesis
    using assms
    by (simp add: write_count_def BITCOIN_ASSERT_def write_bytes_def access_def
        storage_size_def length_to_little_endian)
qed

lemma read_count_in_range:
  assumes "unat (header_size m) + link_width m \<le> storage_size (rm_file m)"
  shows "read_count m =
           Inr (m\<lparr>record_count :=
                  from_little_endian (take (link_width m)
                     (drop (unat (header_size m)) (bytes (rm_file m))))\<rparr>)"
proof -
  have "unat (header_size m + sizeof_Link m) \<le> storage_size (rm_file m)"
    using assms unat_header_plus_width_le [of "header_size m" "link_width m"]
    by (simp add: sizeof_Link_def)
  then show ?thesis
    using assms
    by (simp add: read_count_def BITCOIN_ASSERT_def read_bytes_def access_def storage_size_def)
qed

lemma start_in_range:
  assumes "unat (header_size m) + link_width m \<le> storage_size (rm_file m)"
  shows "start m =
     Inr (unat (header_size m + link_to_position m
                 (from_little_endian (take (link_width m)
                     (drop (unat (header_size m)) (bytes (rm_file m))))))
            \<le> storage_size (rm_file m),
          m\<lparr>record_count := from_little_endian (take (link_width m)
                     (drop (unat (header_size m)) (bytes (rm_file m))))\<rparr>)"
  by (simp add: start_def read_count_in_range [OF assms] link_to_position_def Let_def)

lemma start_reads_bytes:
  assumes "read_bytes (unat (header_size m)) (link_width m) (rm_file m) = Inr bs"
  shows "start m =
     Inr (unat (header_size m + link_to_position m (from_little_endian bs))
            \<le> storage_size (rm_file m),
          m\<lparr>record_count := from_little_endian bs\<rparr>)"
proof -
  have r: "unat (header_size m) + link_width m \<le> storage_size (rm_file m)"
    using assms by (simp add: read_bytes_def storage_size_def split: if_splits)
  have "bs = take (link_width m) (drop (unat (header_size m)) (bytes (rm_file m)))"
    using assms by (simp add: read_bytes_def split: if_splits)
  with start_in_range [OF r] show ?thesis by simp
qed

subsection \<open>create\<close>

lemma create_nonzero: "record_count m \<noteq> 0 \<Longrightarrow> create m = Inr (False, m)"
  by (simp add: create_def)

lemma create_empty:
  assumes "record_count m = 0"
    and "unat (header_size m) + link_width m \<le> unat (capacity (rm_file m))"
  shows "create m =
           Inr (True, m\<lparr>rm_file := (rm_file m)\<lparr>bytes :=
                  take (unat (header_size m)) (bytes (rm_file m)) @
                  replicate (unat (header_size m) - length (bytes (rm_file m))) 0 @
                  replicate (link_width m) 0\<rparr>\<rparr>)"
proof -
  let ?h = "header_size m" and ?f = "rm_file m"
  let ?n = "?h + link_to_position m (record_count m)"
  have small: "unat ?h + link_width m < 2 ^ 64"
    using assms(2) unsigned_less [of "capacity ?f", where 'a = nat]
    by simp
  have n: "unat ?n = unat ?h + link_width m"
    using small assms(1)
    by (simp add: link_to_position_def sizeof_Link_def unat_header_plus_width)
  then have "?n \<le> capacity ?f"
    using assms(2) by (simp add: word_le_nat_alt)
  then have r: "resize ?n ?f =
      Some (?f\<lparr>bytes := take (unat ?h + link_width m) (bytes ?f) @
               replicate (unat ?h + link_width m - length (bytes ?f)) 0\<rparr>)"
    by (simp add: resize_def n)
  let ?f' = "?f\<lparr>bytes := take (unat ?h + link_width m) (bytes ?f) @
               replicate (unat ?h + link_width m - length (bytes ?f)) 0\<rparr>"
  have "unat (header_size (m\<lparr>rm_file := ?f'\<rparr>)) + link_width (m\<lparr>rm_file := ?f'\<rparr>)
          \<le> storage_size (rm_file (m\<lparr>rm_file := ?f'\<rparr>))"
    by (simp add: storage_size_def)
  from write_count_in_range [OF this]
  have "write_count (m\<lparr>rm_file := ?f'\<rparr>) =
      Inr (m\<lparr>rm_file := ?f\<lparr>bytes :=
                  take (unat (header_size m)) (bytes (rm_file m)) @
                  replicate (unat (header_size m) - length (bytes (rm_file m))) 0 @
                  replicate (link_width m) 0\<rparr>\<rparr>)"
    using assms(1) by (simp add: to_little_endian_zero min_def)
  with r assms(1) show ?thesis
    by (simp add: create_def)
qed

lemma create_no_file:
  "create (construct no_file 0 10 :: 32 record_manager) = Inr (True, empty_accepting)"
proof -
  let ?m = "construct no_file 0 10 :: 32 record_manager"
  have "record_count ?m = 0" by simp
  moreover have "unat (header_size ?m) + link_width ?m \<le> unat (capacity (rm_file ?m))"
    by (simp add: link_width_32 no_file_def)
  ultimately have "create ?m = Inr (True, ?m\<lparr>rm_file := (rm_file ?m)\<lparr>bytes :=
                  take (unat (header_size ?m)) (bytes (rm_file ?m)) @
                  replicate (unat (header_size ?m) - length (bytes (rm_file ?m))) 0 @
                  replicate (link_width ?m) 0\<rparr>\<rparr>)"
    by (rule create_empty)
  then show ?thesis
    by (simp add: link_width_32 no_file_def replicate_4 empty_accepting_def count_file_def
        construct_def)
qed

subsection \<open>allocate\<close>

lemma allocate_reserve_fails:
  "\<not> fst (reserve (required_size m n) (rm_file m)) \<Longrightarrow> allocate n m = (0, m)"
  by (auto simp: allocate_def reserve_def split: if_splits)

lemma allocate_reserve_succeeds:
  "fst (reserve (required_size m n) (rm_file m)) \<Longrightarrow>
   allocate n m =
     (record_count m,
      m\<lparr>rm_file := snd (reserve (required_size m n) (rm_file m)),
        record_count := ucast (ucast (record_count m) + n :: size_t)\<rparr>)"
  by (auto simp: allocate_def reserve_def split: if_splits)

lemma required_size_empty_accepting: "required_size empty_accepting 3 = 34"
  by (simp add: required_size_def empty_accepting_def construct_def link_to_position_def
      sizeof_Link_def link_width_def)

lemma required_size_empty_rejecting: "required_size empty_rejecting 3 = 34"
  by (simp add: required_size_def empty_rejecting_def construct_def link_to_position_def
      sizeof_Link_def link_width_def)

lemma reserve_empty_accepting:
  "fst (reserve (required_size empty_accepting 3) (rm_file empty_accepting))"
  by (simp add: required_size_empty_accepting)
    (simp add: reserve_def empty_accepting_def count_file_def construct_def)

lemma reserve_empty_rejecting:
  "\<not> fst (reserve (required_size empty_rejecting 3) (rm_file empty_rejecting))"
  by (simp add: required_size_empty_rejecting)
    (simp add: reserve_def empty_rejecting_def construct_def)

lemma allocate_three_records: "allocate 3 empty_accepting = (0, three_records)"
  by (simp add: eval_defs three_records_def empty_accepting_def count_file_def)

lemma allocate_zero_sized:
  "allocate 2 (construct count_file 0 0 :: 32 record_manager) = (0, zero_sized)"
  by (simp add: eval_defs zero_sized_def count_file_def)

lemma allocate_huge_records:
  "allocate 4 (construct count_file 0 0x8000000000000000 :: 32 record_manager) =
     (0, huge_records)"
  by (simp add: eval_defs huge_records_def count_file_def)

subsection \<open>get and the link arithmetic\<close>

lemma get_buffer:
  "buffer (get m L) = header_size m + link_to_position m L"
  by (simp add: get_def increment_def access_def)

lemma unat_get_buffer:
  fixes m :: "'l::len record_manager"
  assumes "spec_offset m L < 2 ^ 64" and "unat L < 2 ^ 64"
  shows "unat (buffer (get m L)) = spec_offset m L"
proof -
  have "link_width m + unat L * unat (record_size m) < 2 ^ 64"
    using assms(1) by (simp add: spec_offset_def)
  from unat_link_to_position [OF assms(2) this] assms(1) show ?thesis
    by (simp add: get_buffer unat_word_ariths spec_offset_def)
qed

lemma get_injective_aux:
  fixes m :: "'l::len record_manager"
  assumes r: "record_size m \<noteq> 0"
    and 1: "spec_offset m j < 2 ^ 64" and 2: "spec_offset m k < 2 ^ 64"
    and eq: "get m j = get m k"
  shows "j = k"
proof -
  have s1: "unat j < 2 ^ 64"
    using r 1 unfolding spec_offset_def by (rule link_small)
  have s2: "unat k < 2 ^ 64"
    using r 2 unfolding spec_offset_def by (rule link_small)
  have "spec_offset m j = spec_offset m k"
    using unat_get_buffer [OF 1 s1] unat_get_buffer [OF 2 s2] eq by simp
  moreover have "0 < unat (record_size m)" using r by (simp add: unat_gt_0)
  ultimately have "unat j = unat k"
    by (simp add: spec_offset_def)
  then show ?thesis by (rule word_unat_eq_iff [THEN iffD2])
qed

lemma position_to_link_inverse_aux:
  fixes m :: "'l::len record_manager"
  assumes "record_size m \<noteq> 0"
    and "link_width m + unat L * unat (record_size m) < 2 ^ 64"
  shows "position_to_link m (link_to_position m L) = Inr L"
proof -
  have small: "unat L < 2 ^ 64"
    using assms by (rule link_small)
  have prod: "unat L * unat (record_size m) < 2 ^ 64" using assms(2) by simp
  have pos: "0 < unat (record_size m)" using assms(1) by (simp add: unat_gt_0)
  have "link_to_position m L - sizeof_Link m = ucast L * record_size m"
    by (simp add: link_to_position_def)
  moreover have "unat ((ucast L * record_size m) div record_size m) = unat L"
    using pos by (simp add: unat_div unat_link_times [OF small prod])
  then have "(ucast ((ucast L * record_size m) div record_size m) :: 'l word) = L"
    by (metis of_nat_unat ucast_id)
  ultimately show ?thesis
    using assms(1) by (simp add: position_to_link_def)
qed

section \<open>Allocation (C1, C2, C9)\<close>

subsection \<open>A successful allocation\<close>

text \<open>
  When \<^verbatim>\<open>reserve\<close> succeeds, \<^verbatim>\<open>allocate(n)\<close> returns the previous count and the new
  count is \<open>count + n\<close> narrowed to the link type.
\<close>

lemma allocate_success:
  assumes "fst (reserve (required_size m n) (rm_file m))"
  shows "fst (allocate n m) = count m \<and>
         count (snd (allocate n m)) = ucast (ucast (count m) + n :: size_t)"
  using allocate_reserve_succeeds [OF assms] by (simp add: count_def)

text \<open>As long as \<open>count + n\<close> is a link, the count advances by exactly \<open>n\<close>.\<close>

lemma allocate_advances_count:
  fixes m :: "'l::len record_manager"
  assumes "LENGTH('l) \<le> 64"
    and "fst (reserve (required_size m n) (rm_file m))"
    and "unat (count m) + unat n < 2 ^ LENGTH('l)"
  shows "fst (allocate n m) = count m \<and>
         unat (count (snd (allocate n m))) = unat (count m) + unat n"
  using allocate_success [OF assms(2)] narrowed_sum_no_wrap [OF assms(1, 3)]
  by simp

text \<open>
  Hence, as long as the total is a link, every call of a sequence of successful
  allocations returns the count at the start plus the values allocated before it, and
  the count after it is that running sum.
\<close>

lemma length_allocations: "length (allocations ns m) = length ns"
  by (induction ns arbitrary: m) auto

lemma allocations_running_sum:
  fixes m :: "'l::len record_manager"
  assumes "LENGTH('l) \<le> 64"
    and "all_reserved ns m"
    and "unat (count m) + sum_list (map unat ns) < 2 ^ LENGTH('l)"
    and "i < length ns"
  shows "unat (fst (allocations ns m ! i)) = unat (count m) + sum_list (map unat (take i ns)) \<and>
         unat (snd (allocations ns m ! i)) =
           unat (count m) + sum_list (map unat (take (Suc i) ns))"
  using assms(2-)
proof (induction ns arbitrary: m i)
  case Nil
  then show ?case by simp
next
  case (Cons n ns)
  let ?m' = "snd (allocate n m)"
  have r: "fst (reserve (required_size m n) (rm_file m))" and rest: "all_reserved ns ?m'"
    using Cons.prems(1) by simp_all
  have fit: "unat (count m) + unat n < 2 ^ LENGTH('l)"
    using Cons.prems(2) by simp
  from allocate_advances_count [OF assms(1) r fit]
  have ret: "fst (allocate n m) = count m"
    and adv: "unat (count ?m') = unat (count m) + unat n"
    by simp_all
  show ?case
  proof (cases i)
    case 0
    then show ?thesis using ret adv by simp
  next
    case (Suc j)
    have "j < length ns" using Cons.prems(3) Suc by simp
    moreover have "unat (count ?m') + sum_list (map unat ns) < 2 ^ LENGTH('l)"
      using Cons.prems(2) adv by simp
    ultimately have "unat (fst (allocations ns ?m' ! j)) =
          unat (count ?m') + sum_list (map unat (take j ns)) \<and>
        unat (snd (allocations ns ?m' ! j)) =
          unat (count ?m') + sum_list (map unat (take (Suc j) ns))"
      using Cons.IH [OF rest] by blast
    then show ?thesis using Suc adv by simp
  qed
qed

text \<open>
  C1 asks that after every successful \<^verbatim>\<open>allocate(n)\<close> the count is the previous count
  plus \<open>n\<close>, and that each returned link is the sum of the values allocated before.
  The source narrows \<^verbatim>\<open>record_count_ + count\<close> to the link type without a check, so
  the count wraps when the sum is not a link.  On the newly created store with 32-bit
  links, \<^verbatim>\<open>allocate(4294967296)\<close> has its \<^verbatim>\<open>reserve\<close> succeed, returns 0 and leaves
  the store as it was, with \<^verbatim>\<open>count()\<close> at 0 and not at \<open>0 + 4294967296\<close>; the next
  \<^verbatim>\<open>allocate(1)\<close> returns 0, which is not the sum of the values allocated before it.
\<close>

theorem allocate_count_wraps:
  "create (construct no_file 0 10 :: 32 record_manager) = Inr (True, empty_accepting) \<and>
   count empty_accepting = 0 \<and>
   fst (reserve (required_size empty_accepting 0x100000000) (rm_file empty_accepting)) \<and>
   allocate 0x100000000 empty_accepting = (0, empty_accepting) \<and>
   count (snd (allocate 0x100000000 empty_accepting)) = 0 \<and>
   unat (count empty_accepting) + unat (0x100000000 :: size_t) = 4294967296 \<and>
   fst (allocate 1 (snd (allocate 0x100000000 empty_accepting))) = 0"
  using create_no_file
  by (simp add: eval_defs empty_accepting_def count_file_def)

subsection \<open>A failed allocation\<close>

text \<open>
  C2, as the source has it: when the storage's \<^verbatim>\<open>reserve\<close> fails during
  \<^verbatim>\<open>allocate(n)\<close>, the manager is left exactly as it was (count and storage), so
  \<^verbatim>\<open>count()\<close> is unchanged and nothing is allocated, and the value returned is the
  literal 0.
\<close>

theorem allocate_failure_leaves_state:
  assumes "\<not> fst (reserve (required_size m n) (rm_file m))"
  shows "allocate n m = (0, m) \<and> count (snd (allocate n m)) = count m"
  using allocate_reserve_fails [OF assms] by simp

text \<open>Witness for C2: three records of 10 bytes do not fit a storage of capacity 4.\<close>

theorem allocate_failure_leaves_state_witness:
  "\<not> fst (reserve (required_size empty_rejecting 3) (rm_file empty_rejecting)) \<and>
   allocate 3 empty_rejecting = (0, empty_rejecting) \<and>
   count (snd (allocate 3 empty_rejecting)) = count empty_rejecting"
  using allocate_failure_leaves_state [OF reserve_empty_rejecting] reserve_empty_rejecting
  by simp

text \<open>
  Counterexample to C2 as stated: the failure value is not distinct from every
  successful result.  On the empty store whose storage rejects growth \<^verbatim>\<open>allocate(3)\<close>
  fails, on the empty store whose storage accepts it \<^verbatim>\<open>allocate(3)\<close> succeeds and
  advances the count, and both calls return the same value.
\<close>

theorem allocate_failure_value_not_distinct:
  "\<not> fst (reserve (required_size empty_rejecting 3) (rm_file empty_rejecting)) \<and>
   fst (reserve (required_size empty_accepting 3) (rm_file empty_accepting)) \<and>
   count (snd (allocate 3 empty_accepting)) = count empty_accepting + 3 \<and>
   fst (allocate 3 empty_rejecting) = fst (allocate 3 empty_accepting)"
  using allocate_reserve_fails [OF reserve_empty_rejecting]
    allocate_reserve_succeeds [OF reserve_empty_accepting]
    reserve_empty_rejecting reserve_empty_accepting
  by (simp add: count_def) (simp add: empty_accepting_def construct_def)

text \<open>
  C9: the value returned on failure is the literal 0, which is also the starting link of
  a successful allocation made at count 0.  For any store \<open>m1\<close> with count 0 whose
  storage accepts the growth and any store \<open>m2\<close> whose storage rejects it,
  \<^verbatim>\<open>allocate(n)\<close> returns 0 on both, although the first call advanced the count by \<open>n\<close>
  and the second left it alone: the returned value does not tell the two apart.
\<close>

theorem allocate_zero_is_ambiguous:
  assumes "count m1 = 0"
    and "fst (reserve (required_size m1 n) (rm_file m1))"
    and "\<not> fst (reserve (required_size m2 n) (rm_file m2))"
  shows "fst (allocate n m1) = 0 \<and> fst (allocate n m2) = 0 \<and>
         count (snd (allocate n m1)) = ucast n \<and> count (snd (allocate n m2)) = count m2"
  using allocate_reserve_fails [OF assms(3)] allocate_reserve_succeeds [OF assms(2)] assms(1)
  by (simp add: count_def)

text \<open>Witness for C9: two such states exist.\<close>

theorem allocate_zero_is_ambiguous_witness:
  "count empty_accepting = 0 \<and>
   fst (reserve (required_size empty_accepting 3) (rm_file empty_accepting)) \<and>
   \<not> fst (reserve (required_size empty_rejecting 3) (rm_file empty_rejecting)) \<and>
   fst (allocate 3 empty_accepting) = 0 \<and> fst (allocate 3 empty_rejecting) = 0 \<and>
   count (snd (allocate 3 empty_accepting)) = 3 \<and>
   count (snd (allocate 3 empty_rejecting)) = 0"
proof -
  have c: "count empty_accepting = 0" "count empty_rejecting = 0"
    by (simp_all add: count_def empty_accepting_def empty_rejecting_def construct_def)
  from allocate_zero_is_ambiguous [OF c(1) reserve_empty_accepting reserve_empty_rejecting]
  show ?thesis
    using c reserve_empty_accepting reserve_empty_rejecting by simp
qed

section \<open>Persisting the count (C3)\<close>

text \<open>
  On a file that holds the count field, \<^verbatim>\<open>commit()\<close> writes the count as
  \<open>link_width\<close> little-endian bytes at offset \<open>header_size\<close> and leaves the file size
  alone.
\<close>

lemma commit_in_range:
  assumes "unat (header_size m) + link_width m \<le> storage_size (rm_file m)"
  shows "\<exists>f. commit m = Inr (m\<lparr>rm_file := f\<rparr>) \<and>
             storage_size f = storage_size (rm_file m) \<and>
             read_bytes (unat (header_size m)) (link_width m) f =
               Inr (to_little_endian (link_width m) (count m))"
proof -
  let ?f = "(rm_file m)\<lparr>bytes :=
                  take (unat (header_size m)) (bytes (rm_file m)) @
                  to_little_endian (link_width m) (record_count m) @
                  drop (unat (header_size m) + link_width m) (bytes (rm_file m))\<rparr>"
  have "commit m = Inr (m\<lparr>rm_file := ?f\<rparr>)"
    using write_count_in_range [OF assms] by (simp add: commit_def)
  moreover have "storage_size ?f = storage_size (rm_file m)"
    using assms by (auto simp: storage_size_def length_to_little_endian)
  moreover have "read_bytes (unat (header_size m)) (link_width m) ?f =
               Inr (to_little_endian (link_width m) (count m))"
    using assms
    by (auto simp: read_bytes_def storage_size_def length_to_little_endian count_def min_def)
  ultimately show ?thesis by blast
qed

text \<open>For a link type of whole bytes, \<^verbatim>\<open>start()\<close> after \<^verbatim>\<open>commit()\<close> restores the count.\<close>

lemma commit_then_start:
  fixes m :: "'l::len record_manager"
  assumes "LENGTH('l) mod 8 = 0"
    and "unat (header_size m) + link_width m \<le> storage_size (rm_file m)"
  shows "\<exists>m' ok. commit m = Inr m' \<and> start m' = Inr (ok, m') \<and> count m' = count m"
proof -
  from commit_in_range [OF assms(2)] obtain f where
    c: "commit m = Inr (m\<lparr>rm_file := f\<rparr>)" and
    r: "read_bytes (unat (header_size m)) (link_width m) f =
               Inr (to_little_endian (link_width m) (count m))"
    by blast
  have "from_little_endian (to_little_endian (link_width m) (count m)) = count m"
    using whole_bytes_round_trip [OF assms(1)] by (simp add: link_width_def)
  with start_reads_bytes [of "m\<lparr>rm_file := f\<rparr>"] r
  have "\<exists>ok. start (m\<lparr>rm_file := f\<rparr>) = Inr (ok, m\<lparr>rm_file := f\<rparr>)"
    by (simp add: count_def)
  with c show ?thesis by (auto simp: count_def)
qed

text \<open>A store that \<^verbatim>\<open>create()\<close> initialised starts with count 0.\<close>

lemma create_then_start:
  fixes m :: "'l::len record_manager"
  assumes "record_count m = 0"
    and "unat (header_size m) + link_width m \<le> unat (capacity (rm_file m))"
  shows "\<exists>m'. create m = Inr (True, m') \<and> start m' = Inr (True, m') \<and> count m' = 0"
proof -
  let ?f = "(rm_file m)\<lparr>bytes :=
                  take (unat (header_size m)) (bytes (rm_file m)) @
                  replicate (unat (header_size m) - length (bytes (rm_file m))) 0 @
                  replicate (link_width m) 0\<rparr>"
  have c: "create m = Inr (True, m\<lparr>rm_file := ?f\<rparr>)"
    using assms by (rule create_empty)
  have s: "storage_size ?f = unat (header_size m) + link_width m"
    by (simp add: storage_size_def)
  have r: "read_bytes (unat (header_size m)) (link_width m) ?f =
             Inr (to_little_endian (link_width m) (record_count m))"
    using assms(1) by (simp add: read_bytes_def to_little_endian_zero)
  have z: "(from_little_endian (to_little_endian (link_width m) (record_count m)) :: 'l word) = 0"
    using assms(1) by (simp add: from_to_little_endian)
  have "unat (header_size m + sizeof_Link m) \<le> unat (header_size m) + link_width m"
    using unat_header_plus_width_le [of "header_size m" "link_width m"]
    by (simp add: sizeof_Link_def)
  with start_reads_bytes [of "m\<lparr>rm_file := ?f\<rparr>" "to_little_endian (link_width m) (record_count m)"]
    r z s assms(1)
  have "start (m\<lparr>rm_file := ?f\<rparr>) = Inr (True, m\<lparr>rm_file := ?f\<rparr>)"
    by (simp add: link_to_position_def)
  with c assms(1) show ?thesis by (auto simp: count_def)
qed

lemma start_corrupt64:
  "start corrupt64 = Inr (True, corrupt64\<lparr>record_count := 0x1000000000000000\<rparr>)"
proof -
  have "unat (header_size corrupt64) + link_width corrupt64 \<le> storage_size (rm_file corrupt64)"
    by (simp add: link_width_64 storage_size_def corrupt64_def)
  from start_in_range [OF this] show ?thesis
    by (simp add: link_width_64 corrupt64_def from_little_endian_corrupt storage_size_def
        link_to_position_def sizeof_Link_def)
qed

text \<open>
  C3 asks that \<^verbatim>\<open>start()\<close> return whether the file size is at least
  \<open>header_size + link_width + count * record_size\<close>.  The source computes that
  minimum in \<^verbatim>\<open>size_t\<close> without a check, so it wraps.  A manager with 64-bit links and
  records of 16 bytes, over a file of 8 bytes whose count field holds \<open>2 ^ 60\<close>, loads
  that count and returns true, although the records need \<open>2 ^ 64 + 8\<close> bytes.
\<close>

theorem start_size_check_wraps:
  "start corrupt64 = Inr (True, corrupt64\<lparr>record_count := 0x1000000000000000\<rparr>) \<and>
   storage_size (rm_file corrupt64) = 8 \<and>
   spec_offset corrupt64 0x1000000000000000 = 18446744073709551624"
  using start_corrupt64
  by (simp add: corrupt64_def storage_size_def link_width_64 spec_offset_def)

section \<open>Initialising a store (C4, C10)\<close>

text \<open>
  C4: \<^verbatim>\<open>create()\<close> returns false and changes nothing when the cached count is nonzero.
  Otherwise, on a storage that accepts a file of \<open>header_size + link_width\<close> bytes, it
  returns true, the file has exactly that size, the count field at offset
  \<open>header_size\<close> holds the little-endian bytes of the count 0, and the count is 0.
\<close>

theorem create_initializes_store:
  "(record_count m \<noteq> 0 \<longrightarrow> create m = Inr (False, m)) \<and>
   (record_count m = 0 \<and>
    unat (header_size m) + link_width m \<le> unat (capacity (rm_file m)) \<longrightarrow>
      (\<exists>f. create m = Inr (True, m\<lparr>rm_file := f\<rparr>) \<and>
           storage_size f = unat (header_size m) + link_width m \<and>
           read_bytes (unat (header_size m)) (link_width m) f =
             Inr (to_little_endian (link_width m) (record_count m)) \<and>
           count (m\<lparr>rm_file := f\<rparr>) = 0))"
proof (intro conjI impI)
  assume "record_count m \<noteq> 0"
  then show "create m = Inr (False, m)" by (rule create_nonzero)
next
  assume a: "record_count m = 0 \<and>
    unat (header_size m) + link_width m \<le> unat (capacity (rm_file m))"
  let ?f = "(rm_file m)\<lparr>bytes :=
                  take (unat (header_size m)) (bytes (rm_file m)) @
                  replicate (unat (header_size m) - length (bytes (rm_file m))) 0 @
                  replicate (link_width m) 0\<rparr>"
  have "create m = Inr (True, m\<lparr>rm_file := ?f\<rparr>)"
    using a by (simp add: create_empty)
  moreover have "storage_size ?f = unat (header_size m) + link_width m"
    by (simp add: storage_size_def)
  moreover have "read_bytes (unat (header_size m)) (link_width m) ?f =
             Inr (to_little_endian (link_width m) (record_count m))"
    using a by (simp add: read_bytes_def to_little_endian_zero)
  moreover have "count (m\<lparr>rm_file := ?f\<rparr>) = 0"
    using a by (simp add: count_def)
  ultimately show "\<exists>f. create m = Inr (True, m\<lparr>rm_file := f\<rparr>) \<and>
           storage_size f = unat (header_size m) + link_width m \<and>
           read_bytes (unat (header_size m)) (link_width m) f =
             Inr (to_little_endian (link_width m) (record_count m)) \<and>
           count (m\<lparr>rm_file := f\<rparr>) = 0"
    by blast
qed

text \<open>
  Witness for C4, the specification's scenario: no header, 4-byte links, records of 10
  bytes.  A manager with count 3 refuses; a new one gets a file of 4 zero bytes.
\<close>

theorem create_initializes_store_witness:
  "record_count three_records \<noteq> 0 \<and>
   create three_records = Inr (False, three_records) \<and>
   record_count (construct no_file 0 10 :: 32 record_manager) = 0 \<and>
   unat (0 :: size_t) + 4 \<le> unat (capacity no_file) \<and>
   (\<exists>f. create (construct no_file 0 10 :: 32 record_manager) = Inr (True, construct f 0 10) \<and>
        storage_size f = 4 \<and> read_bytes 0 4 f = Inr [0, 0, 0, 0])"
proof -
  have cap: "unat (0 :: size_t) + 4 \<le> unat (capacity no_file)"
    by (simp add: no_file_def)
  have upd: "(construct no_file 0 10 :: 32 record_manager)\<lparr>rm_file := f\<rparr> = construct f 0 10"
    for f
    by (simp add: construct_def)
  have "\<exists>f. create (construct no_file 0 10 :: 32 record_manager) = Inr (True, construct f 0 10) \<and>
        storage_size f = 4 \<and> read_bytes 0 4 f = Inr [0, 0, 0, 0]"
    using create_initializes_store [of "construct no_file 0 10 :: 32 record_manager"] cap
    by (simp add: link_width_32 upd to_little_endian_zero replicate_4) blast
  moreover have three: "record_count three_records \<noteq> 0"
    by (simp add: three_records_def)
  moreover have "create three_records = Inr (False, three_records)"
    using create_initializes_store [of three_records] three by simp
  ultimately show ?thesis
    using cap by simp
qed

lemma start_populated:
  "start (construct populated_file 0 10 :: 32 record_manager) =
     Inr (True, (construct populated_file 0 10)\<lparr>record_count := 3\<rparr>)"
proof -
  have "unat (header_size (construct populated_file 0 10 :: 32 record_manager)) +
        link_width (construct populated_file 0 10 :: 32 record_manager)
        \<le> storage_size (rm_file (construct populated_file 0 10 :: 32 record_manager))"
    by (simp add: link_width_32 storage_size_def populated_file_def)
  from start_in_range [OF this] show ?thesis
    by (simp add: link_width_32 populated_file_def from_little_endian_3 storage_size_def
        link_to_position_def sizeof_Link_def)
qed

text \<open>
  C10: the check in \<^verbatim>\<open>create()\<close> looks at the cached count only.  A newly
  constructed manager has the cached count 0, so on any file \<open>f\<close>, whatever count
  its bytes hold, \<^verbatim>\<open>create()\<close> returns true and leaves a file of exactly
  \<open>header_size + link_width\<close> bytes with a zero count field (given that the storage
  accepts that size); only after \<^verbatim>\<open>start()\<close> has loaded a nonzero count does
  \<^verbatim>\<open>create()\<close> return false.
\<close>

theorem create_consults_cached_count_only:
  fixes f :: storage and h r :: size_t
  assumes "unat h + LENGTH('l::len) div 8 \<le> unat (capacity f)"
  shows "(\<exists>f'. create (construct f h r :: 'l record_manager) = Inr (True, construct f' h r) \<and>
             storage_size f' = unat h + LENGTH('l) div 8 \<and>
             read_bytes (unat h) (LENGTH('l) div 8) f' = Inr (replicate (LENGTH('l) div 8) 0)) \<and>
         (\<forall>ok m'. start (construct f h r :: 'l record_manager) = Inr (ok, m') \<and>
             count m' \<noteq> 0 \<longrightarrow> create m' = Inr (False, m'))"
proof -
  let ?m = "construct f h r :: 'l record_manager"
  have upd: "?m\<lparr>rm_file := f'\<rparr> = construct f' h r" for f'
    by (simp add: construct_def)
  have "record_count ?m = 0 \<and>
      unat (header_size ?m) + link_width ?m \<le> unat (capacity (rm_file ?m))"
    using assms by (simp add: link_width_def)
  from create_empty [of ?m] this
  have "create ?m = Inr (True, construct (f\<lparr>bytes :=
                  take (unat h) (bytes f) @ replicate (unat h - length (bytes f)) 0 @
                  replicate (LENGTH('l) div 8) 0\<rparr>) h r)"
    by (simp add: upd link_width_def)
  moreover have "storage_size (f\<lparr>bytes :=
                  take (unat h) (bytes f) @ replicate (unat h - length (bytes f)) 0 @
                  replicate (LENGTH('l) div 8) 0\<rparr>) = unat h + LENGTH('l) div 8"
    by (simp add: storage_size_def)
  moreover have "read_bytes (unat h) (LENGTH('l) div 8) (f\<lparr>bytes :=
                  take (unat h) (bytes f) @ replicate (unat h - length (bytes f)) 0 @
                  replicate (LENGTH('l) div 8) 0\<rparr>) = Inr (replicate (LENGTH('l) div 8) 0)"
    by (simp add: read_bytes_def)
  ultimately have first: "\<exists>f'. create ?m = Inr (True, construct f' h r) \<and>
             storage_size f' = unat h + LENGTH('l) div 8 \<and>
             read_bytes (unat h) (LENGTH('l) div 8) f' = Inr (replicate (LENGTH('l) div 8) 0)"
    by blast
  have "\<forall>ok m'. start ?m = Inr (ok, m') \<and> count m' \<noteq> 0 \<longrightarrow> create m' = Inr (False, m')"
    by (simp add: count_def create_nonzero)
  with first show ?thesis by blast
qed

text \<open>
  Witness for C10: over a file of 34 bytes whose count field holds 3, a new manager's
  \<^verbatim>\<open>create()\<close> returns true and leaves 4 zero bytes; after \<^verbatim>\<open>start()\<close>, which loads
  the count 3, \<^verbatim>\<open>create()\<close> returns false.
\<close>

theorem create_consults_cached_count_only_witness:
  "unat (0 :: size_t) + LENGTH(32) div 8 \<le> unat (capacity populated_file) \<and>
   read_bytes 0 4 populated_file = Inr [3, 0, 0, 0] \<and>
   storage_size populated_file = 34 \<and>
   (\<exists>f'. create (construct populated_file 0 10 :: 32 record_manager) =
            Inr (True, construct f' 0 10) \<and>
        storage_size f' = 4 \<and> read_bytes 0 4 f' = Inr [0, 0, 0, 0]) \<and>
   start (construct populated_file 0 10 :: 32 record_manager) =
     Inr (True, (construct populated_file 0 10)\<lparr>record_count := 3\<rparr>) \<and>
   create ((construct populated_file 0 10 :: 32 record_manager)\<lparr>record_count := 3\<rparr>) =
     Inr (False, (construct populated_file 0 10)\<lparr>record_count := 3\<rparr>)"
proof -
  have cap: "unat (0 :: size_t) + LENGTH(32) div 8 \<le> unat (capacity populated_file)"
    by (simp add: populated_file_def)
  have pf: "read_bytes 0 4 populated_file = Inr [3, 0, 0, 0]"
    "storage_size populated_file = 34"
    by (simp_all add: read_bytes_def populated_file_def storage_size_def)
  note t = create_consults_cached_count_only [where 'l = 32, OF cap, of 10]
  have one: "\<exists>f'. create (construct populated_file 0 10 :: 32 record_manager) =
            Inr (True, construct f' 0 10) \<and>
        storage_size f' = 4 \<and> read_bytes 0 4 f' = Inr [0, 0, 0, 0]"
    using t by (simp add: replicate_4)
  have two: "create ((construct populated_file 0 10 :: 32 record_manager)\<lparr>record_count := 3\<rparr>) =
     Inr (False, (construct populated_file 0 10)\<lparr>record_count := 3\<rparr>)"
    using t start_populated by (auto simp: count_def)
  show ?thesis
    using cap pf one two start_populated by simp
qed

section \<open>Rolling the count back (C5)\<close>

text \<open>
  C5: \<^verbatim>\<open>set_count(v)\<close> with \<open>v\<close> above the current count fails its assertion and
  never returns a manager; with \<open>v\<close> at most the current count it succeeds and
  \<^verbatim>\<open>count()\<close> is then \<open>v\<close>.
\<close>

theorem set_count_rollback_bound:
  "(record_count m < v \<longrightarrow> set_count v m = Inl assertion_failed) \<and>
   (v \<le> record_count m \<longrightarrow>
      set_count v m = Inr (m\<lparr>record_count := v\<rparr>) \<and> count (m\<lparr>record_count := v\<rparr>) = v)"
  by (auto simp: set_count_def BITCOIN_ASSERT_def count_def)

text \<open>Witness for C5: from count 3, setting 5 faults and setting 1 succeeds.\<close>

theorem set_count_rollback_bound_witness:
  "record_count three_records < 5 \<and>
   set_count 5 three_records = Inl assertion_failed \<and>
   1 \<le> record_count three_records \<and>
   set_count 1 three_records = Inr (three_records\<lparr>record_count := 1\<rparr>) \<and>
   count (three_records\<lparr>record_count := 1\<rparr>) = 1"
proof -
  have c: "record_count three_records = 3"
    by (simp add: three_records_def)
  from set_count_rollback_bound [of three_records 5] set_count_rollback_bound [of three_records 1]
  show ?thesis by (simp add: c)
qed

section \<open>Links and offsets (C6, C7, C8)\<close>

text \<open>
  C6, as the source has it: for every link \<open>L\<close> (valid or not), when the record size
  is not zero and \<open>link_width + L * record_size\<close> is below \<open>2 ^ 64\<close>,
  \<^verbatim>\<open>position_to_link(link_to_position(L))\<close> is \<open>L\<close>.
\<close>

theorem position_to_link_inverse:
  fixes m :: "'l::len record_manager"
  assumes "record_size m \<noteq> 0"
    and "link_width m + unat L * unat (record_size m) < 2 ^ 64"
  shows "position_to_link m (link_to_position m L) = Inr L"
  using assms by (rule position_to_link_inverse_aux)

text \<open>Witness for C6: link 2 of the store with three records of 10 bytes, at position 24.\<close>

theorem position_to_link_inverse_witness:
  "record_size three_records \<noteq> 0 \<and>
   link_width three_records + unat (2 :: 32 word) * unat (record_size three_records) < 2 ^ 64 \<and>
   2 < count three_records \<and>
   link_to_position three_records 2 = 24 \<and>
   position_to_link three_records (link_to_position three_records 2) = Inr 2"
proof -
  have r: "record_size three_records \<noteq> 0"
    by (simp add: three_records_def)
  have s: "link_width three_records + unat (2 :: 32 word) * unat (record_size three_records)
            < 2 ^ 64"
    by (simp add: three_records_def link_width_32)
  have "2 < count three_records" "link_to_position three_records 2 = 24"
    by (simp_all add: three_records_def eval_defs)
  with r s position_to_link_inverse [OF r s] show ?thesis by simp
qed

text \<open>
  Counterexample to C6 as stated.  With records of size 0 the division traps at the
  valid link 1; with records of \<open>2 ^ 63\<close> bytes the product wraps and the valid link 2
  comes back as link 0.  Both stores are what one \<^verbatim>\<open>allocate\<close> makes of a new store.
\<close>

theorem position_to_link_not_inverse:
  "allocate 2 (construct count_file 0 0 :: 32 record_manager) = (0, zero_sized) \<and>
   1 < count zero_sized \<and>
   position_to_link zero_sized (link_to_position zero_sized 1) = Inl division_by_zero \<and>
   allocate 4 (construct count_file 0 0x8000000000000000 :: 32 record_manager) =
     (0, huge_records) \<and>
   2 < count huge_records \<and>
   position_to_link huge_records (link_to_position huge_records 2) = Inr 0"
  using allocate_zero_sized allocate_huge_records
  by (simp add: eval_defs zero_sized_def huge_records_def)

text \<open>
  C7, as the source has it, for a link type of at most 64 bits: \<^verbatim>\<open>get(L)\<close> does not
  look at the count; when \<open>header_size + link_width + L * record_size\<close> is below
  \<open>2 ^ 64\<close> the accessor is at that offset; and when the record size is not zero, two
  different links whose offsets are below \<open>2 ^ 64\<close> get different accessors.
  \<^verbatim>\<open>get\<close> has no failure: it is a total function.
\<close>

theorem get_offset_injective:
  fixes m :: "'l::len record_manager"
  assumes "LENGTH('l) \<le> 64"
  shows "get (m\<lparr>record_count := c\<rparr>) L = get m L \<and>
         (spec_offset m L < 2 ^ 64 \<longrightarrow> unat (buffer (get m L)) = spec_offset m L) \<and>
         (record_size m \<noteq> 0 \<and> spec_offset m j < 2 ^ 64 \<and> spec_offset m k < 2 ^ 64 \<and>
          j \<noteq> k \<longrightarrow> get m j \<noteq> get m k)"
proof (intro conjI impI)
  show "get (m\<lparr>record_count := c\<rparr>) L = get m L"
    by (simp add: get_def link_to_position_def access_def)
next
  have "unat L < 2 ^ LENGTH('l)" by (rule unsigned_less)
  also have "(2 :: nat) ^ LENGTH('l) \<le> 2 ^ 64"
    using assms by (rule power_increasing) simp
  finally have small: "unat L < 2 ^ 64" .
  assume "spec_offset m L < 2 ^ 64"
  then show "unat (buffer (get m L)) = spec_offset m L"
    using small by (rule unat_get_buffer)
next
  assume a: "record_size m \<noteq> 0 \<and> spec_offset m j < 2 ^ 64 \<and> spec_offset m k < 2 ^ 64 \<and>
          j \<noteq> k"
  show "get m j \<noteq> get m k"
  proof
    assume "get m j = get m k"
    with a have "j = k" by (blast intro: get_injective_aux)
    with a show False by simp
  qed
qed

text \<open>
  Witness for C7, the specification's scenario: \<^verbatim>\<open>get(1)\<close> is at offset
  \<open>4 + 1 * 10 = 14\<close>, whatever the count, and differs from \<^verbatim>\<open>get(2)\<close>.
\<close>

theorem get_offset_injective_witness:
  "LENGTH(32) \<le> 64 \<and>
   get (three_records\<lparr>record_count := 0\<rparr>) 1 = get three_records 1 \<and>
   spec_offset three_records 1 < 2 ^ 64 \<and> spec_offset three_records 2 < 2 ^ 64 \<and>
   record_size three_records \<noteq> 0 \<and> (1 :: 32 word) \<noteq> 2 \<and>
   unat (buffer (get three_records 1)) = 14 \<and>
   get three_records 1 \<noteq> get three_records 2"
proof -
  have l: "LENGTH(32) \<le> 64" by simp
  have o: "spec_offset three_records 1 = 14" "spec_offset three_records 2 = 24"
    by (simp_all add: spec_offset_def three_records_def link_width_32)
  have r: "record_size three_records \<noteq> 0" by (simp add: three_records_def)
  from get_offset_injective [where 'l = 32, OF l,
      where m = three_records and c = 0 and L = 1 and j = 1 and k = 2] o r
  show ?thesis by simp
qed

text \<open>
  Counterexample to C7 as stated: the mapping is not injective over valid links.  With
  records of size 0 the valid links 0 and 1 get the same accessor; with records of
  \<open>2 ^ 63\<close> bytes the valid links 0 and 2 do.
\<close>

theorem get_not_injective:
  "allocate 2 (construct count_file 0 0 :: 32 record_manager) = (0, zero_sized) \<and>
   0 < count zero_sized \<and> 1 < count zero_sized \<and>
   get zero_sized 0 = get zero_sized 1 \<and>
   allocate 4 (construct count_file 0 0x8000000000000000 :: 32 record_manager) =
     (0, huge_records) \<and>
   0 < count huge_records \<and> 2 < count huge_records \<and>
   get huge_records 0 = get huge_records 2"
  using allocate_zero_sized allocate_huge_records
  by (simp add: eval_defs zero_sized_def huge_records_def)

lemma start_full32:
  "start (construct full_file 0 10 :: 32 record_manager) = Inr (False, full32)"
proof -
  let ?m = "construct full_file 0 10 :: 32 record_manager"
  have "unat (header_size ?m) + link_width ?m \<le> storage_size (rm_file ?m)"
    by (simp add: link_width_32 storage_size_def full_file_def)
  from start_in_range [OF this] show ?thesis
    by (simp add: link_width_32 from_little_endian_full storage_size_def
        link_to_position_def sizeof_Link_def full32_def full_file_def)
qed

text \<open>
  C8 asks that the link and offset arithmetic detect overflow and fault.  The source
  has no such check (it carries the note \<^verbatim>\<open>TODO: guard against overflows\<close>), and its
  functions have no way to fault.  At the largest 32-bit link as the count (loaded by
  \<^verbatim>\<open>start\<close>), \<^verbatim>\<open>allocate(1)\<close> computes a required size of 4 bytes, succeeds, returns
  that link and wraps the count to 0.  At the largest 64-bit link and records of 10
  bytes, \<^verbatim>\<open>link_to_position\<close> and \<^verbatim>\<open>get\<close> yield \<open>2 ^ 64 - 2\<close>, where the offset of
  that record is \<open>8 + (2 ^ 64 - 1) * 10\<close>.
\<close>

theorem overflow_wraps_silently:
  "start (construct full_file 0 10 :: 32 record_manager) = Inr (False, full32) \<and>
   count full32 = 0xFFFFFFFF \<and>
   required_size full32 1 = 4 \<and>
   allocate 1 full32 = (0xFFFFFFFF, full32\<lparr>record_count := 0\<rparr>) \<and>
   link_to_position max_link_store 0xFFFFFFFFFFFFFFFF = 0xFFFFFFFFFFFFFFFE \<and>
   buffer (get max_link_store 0xFFFFFFFFFFFFFFFF) = 0xFFFFFFFFFFFFFFFE \<and>
   spec_offset max_link_store 0xFFFFFFFFFFFFFFFF = 184467440737095516158"
  using start_full32
  by (simp add: eval_defs full32_def full_file_def max_link_store_def spec_offset_def)

end
